theory Spec2Isabelle
  imports Main
begin

section \<open>Data model of the cache (main.go)\<close>

text \<open>
  A \<^verbatim>\<open>time.Time\<close> is modelled by its instant, an integer count of nanoseconds from
  the zero time; \<^verbatim>\<open>IsZero\<close>, \<^verbatim>\<open>Before\<close> and \<^verbatim>\<open>After\<close> compare instants.
\<close>

type_synonym time = int

definition zero_time :: time where
  "zero_time = 0"

definition IsZero :: "time \<Rightarrow> bool" where
  "IsZero t \<longleftrightarrow> t = 0"

definition Before :: "time \<Rightarrow> time \<Rightarrow> bool" where
  "Before t u \<longleftrightarrow> t < u"

definition After :: "time \<Rightarrow> time \<Rightarrow> bool" where
  "After t u \<longleftrightarrow> u < t"

text \<open>
  Keys have the Go type \<^verbatim>\<open>any\<close>: a dynamically typed value. The model keeps three
  comparable dynamic types, one of them the string type that the expiry callbacks expect.
  Dynamic types that cannot be hashed (slices, maps, functions) are left out.
\<close>

datatype any = AString string | AInt int | ABool bool

text \<open>The run-time panics that the modelled code can raise.\<close>

datatype panic = TypeAssertion | NilFuncCall | NonPositiveInterval

record 'v Item =
  Value :: 'v
  Expires :: time

text \<open>
  \<^verbatim>\<open>Metrics map[string]int\<close> always holds the four keys that \<^verbatim>\<open>New\<close> puts there.
  Go's \<^verbatim>\<open>int\<close> is modelled as an unbounded integer: the counters move by one per call
  and the byte estimate is bounded by the memory the entries really occupy, so none of
  them gets near \<open>2^63\<close>.
\<close>

record metrics =
  hits :: int
  misses :: int
  items :: int
  memoryUsageBytes :: int

text \<open>
  Callbacks are functions of the caller. They are modelled as transformers of a state
  \<open>'w\<close> outside the cache (what the callback prints, collects or sends). The three
  entries of \<^verbatim>\<open>updates\<close> (created, updated, deleted) are three fields. The stop channel
  is modelled apart, in the last section.
\<close>

record ('v, 'w) Cache =
  data :: "any \<rightharpoonup> 'v Item"
  prev :: "any \<rightharpoonup> 'v Item"
  interval :: int
  compareFunc :: "('v \<Rightarrow> 'v \<Rightarrow> bool) option"
  updates_created :: "'v list"
  updates_updated :: "'v list"
  updates_deleted :: "'v list"
  beforeTickMiddleware :: "('w \<Rightarrow> 'w) list"
  afterTickMiddleware :: "('w \<Rightarrow> 'w) list"
  createMiddlewares :: "('v list \<Rightarrow> 'w \<Rightarrow> 'w) list"
  updateMiddlewares :: "('v list \<Rightarrow> 'w \<Rightarrow> 'w) list"
  deleteMiddlewares :: "('v list \<Rightarrow> 'w \<Rightarrow> 'w) list"
  expiryMiddlewares :: "(string \<Rightarrow> 'v Item \<Rightarrow> 'w \<Rightarrow> 'w) list"
  Metrics :: metrics

text \<open>
  \<^verbatim>\<open>unsafe.Sizeof\<close> is a constant of the static type of its operand: the three sizes
  that \<^verbatim>\<open>updateMemoryUsage\<close> adds up are parameters of the model.
\<close>

record sizes =
  sizeof_Item :: nat
  sizeof_Value :: nat
  sizeof_Time :: nat

section \<open>Construction and configuration\<close>

definition New :: "('v, 'w) Cache" where
  "New = \<lparr> data = Map.empty, prev = Map.empty, interval = 0, compareFunc = None,
           updates_created = [], updates_updated = [], updates_deleted = [],
           beforeTickMiddleware = [], afterTickMiddleware = [],
           createMiddlewares = [], updateMiddlewares = [], deleteMiddlewares = [],
           expiryMiddlewares = [],
           Metrics = \<lparr> hits = 0, misses = 0, items = 0, memoryUsageBytes = 0 \<rparr> \<rparr>"

definition Equals :: "('v \<Rightarrow> 'v \<Rightarrow> bool) \<Rightarrow> ('v, 'w) Cache \<Rightarrow> ('v, 'w) Cache" where
  "Equals f c = c\<lparr>compareFunc := Some f\<rparr>"

definition WithInterval :: "int \<Rightarrow> ('v, 'w) Cache \<Rightarrow> ('v, 'w) Cache" where
  "WithInterval d c = c\<lparr>interval := d\<rparr>"

definition OnCreate :: "('v list \<Rightarrow> 'w \<Rightarrow> 'w) \<Rightarrow> ('v, 'w) Cache \<Rightarrow> ('v, 'w) Cache" where
  "OnCreate m c = c\<lparr>createMiddlewares := createMiddlewares c @ [m]\<rparr>"

definition OnUpdate :: "('v list \<Rightarrow> 'w \<Rightarrow> 'w) \<Rightarrow> ('v, 'w) Cache \<Rightarrow> ('v, 'w) Cache" where
  "OnUpdate m c = c\<lparr>updateMiddlewares := updateMiddlewares c @ [m]\<rparr>"

definition OnDelete :: "('v list \<Rightarrow> 'w \<Rightarrow> 'w) \<Rightarrow> ('v, 'w) Cache \<Rightarrow> ('v, 'w) Cache" where
  "OnDelete m c = c\<lparr>deleteMiddlewares := deleteMiddlewares c @ [m]\<rparr>"

definition OnExpiry ::
  "(string \<Rightarrow> 'v Item \<Rightarrow> 'w \<Rightarrow> 'w) \<Rightarrow> ('v, 'w) Cache \<Rightarrow> ('v, 'w) Cache" where
  "OnExpiry m c = c\<lparr>expiryMiddlewares := expiryMiddlewares c @ [m]\<rparr>"

definition OnBeforeTick :: "('w \<Rightarrow> 'w) \<Rightarrow> ('v, 'w) Cache \<Rightarrow> ('v, 'w) Cache" where
  "OnBeforeTick m c = c\<lparr>beforeTickMiddleware := beforeTickMiddleware c @ [m]\<rparr>"

definition OnAfterTick :: "('w \<Rightarrow> 'w) \<Rightarrow> ('v, 'w) Cache \<Rightarrow> ('v, 'w) Cache" where
  "OnAfterTick m c = c\<lparr>afterTickMiddleware := afterTickMiddleware c @ [m]\<rparr>"

section \<open>Store operations\<close>

definition item_size :: "sizes \<Rightarrow> 'v Item \<Rightarrow> int" where
  "item_size sz item = int (sizeof_Item sz) + int (sizeof_Value sz) + int (sizeof_Time sz)"

definition updateMemoryUsage ::
  "sizes \<Rightarrow> 'v Item \<Rightarrow> bool \<Rightarrow> ('v, 'w) Cache \<Rightarrow> ('v, 'w) Cache" where
  "updateMemoryUsage sz item add c =
     (let size = item_size sz item in
      if add
      then c\<lparr>Metrics := (Metrics c)\<lparr>memoryUsageBytes := memoryUsageBytes (Metrics c) + size\<rparr>\<rparr>
      else c\<lparr>Metrics := (Metrics c)\<lparr>memoryUsageBytes := memoryUsageBytes (Metrics c) - size\<rparr>\<rparr>)"

text \<open>\<^verbatim>\<open>c.Metrics["items"] = len(c.data)\<close>\<close>

definition refresh_items :: "('v, 'w) Cache \<Rightarrow> ('v, 'w) Cache" where
  "refresh_items c = c\<lparr>Metrics := (Metrics c)\<lparr>items := int (card (dom (data c)))\<rparr>\<rparr>"

text \<open>
  \<^verbatim>\<open>Set(key, value, expires...)\<close>: the variadic parameter is the list \<open>expires\<close>.
\<close>

definition Set ::
  "sizes \<Rightarrow> any \<Rightarrow> 'v \<Rightarrow> time list \<Rightarrow> ('v, 'w) Cache \<Rightarrow> ('v, 'w) Cache" where
  "Set sz key value expires c =
     (let expiration = (if length expires > 0 then expires ! 0 else zero_time);
          item = \<lparr> Value = value, Expires = expiration \<rparr>;
          c1 = (case data c key of
                  Some existingItem \<Rightarrow> updateMemoryUsage sz existingItem False c
                | None \<Rightarrow> c);
          c2 = updateMemoryUsage sz item True c1;
          c3 = c2\<lparr>data := (data c2)(key \<mapsto> item)\<rparr>
      in refresh_items c3)"

text \<open>
  \<^verbatim>\<open>Get(key)\<close> at clock reading \<open>now\<close>; \<open>zero\<close> is the zero value of the value type.
  The result is the returned pair and the cache with its counters updated.
\<close>

definition Get ::
  "'v \<Rightarrow> time \<Rightarrow> any \<Rightarrow> ('v, 'w) Cache \<Rightarrow> ('v \<times> bool) \<times> ('v, 'w) Cache" where
  "Get zero now key c =
     (let miss = ((zero, False), c\<lparr>Metrics := (Metrics c)\<lparr>misses := misses (Metrics c) + 1\<rparr>\<rparr>)
      in case data c key of
           None \<Rightarrow> miss
         | Some item \<Rightarrow>
             if \<not> IsZero (Expires item) \<and> Before (Expires item) now then miss
             else ((Value item, True),
                   c\<lparr>Metrics := (Metrics c)\<lparr>hits := hits (Metrics c) + 1\<rparr>\<rparr>))"

text \<open>
  A \<^verbatim>\<open>range\<close> over a Go map visits its entries in an order the language does not fix.
  The order is a parameter of every modelled loop: a list \<open>ks\<close> of keys. An entry removed
  before the loop reaches it is not produced, so each loop looks the key up when it
  reaches it and passes on when it is gone. \<open>range_order ks m\<close> says that \<open>ks\<close> is an
  order in which a range can produce the keys of \<open>m\<close>.
\<close>

definition range_order :: "any list \<Rightarrow> (any \<rightharpoonup> 'a) \<Rightarrow> bool" where
  "range_order ks m \<longleftrightarrow> distinct ks \<and> set ks = dom m"

text \<open>\<^verbatim>\<open>GetAll()\<close>: the clock is read once for each entry with an expiry, \<open>now key\<close>.\<close>

fun GetAll_loop :: "(any \<Rightarrow> time) \<Rightarrow> any list \<Rightarrow> (any \<rightharpoonup> 'v Item) \<Rightarrow> 'v list \<Rightarrow> 'v list" where
  "GetAll_loop now [] m res = res"
| "GetAll_loop now (key # ks) m res =
     (case m key of
        None \<Rightarrow> GetAll_loop now ks m res
      | Some item \<Rightarrow>
          if IsZero (Expires item) \<or> After (Expires item) (now key)
          then GetAll_loop now ks m (res @ [Value item])
          else GetAll_loop now ks m res)"

definition GetAll ::
  "(any \<Rightarrow> time) \<Rightarrow> any list \<Rightarrow> ('v, 'w) Cache \<Rightarrow> 'v list \<times> ('v, 'w) Cache" where
  "GetAll now ks c = (GetAll_loop now ks (data c) [], c)"

definition Delete :: "sizes \<Rightarrow> any \<Rightarrow> ('v, 'w) Cache \<Rightarrow> ('v, 'w) Cache" where
  "Delete sz key c =
     (case data c key of
        Some item \<Rightarrow>
          (let c1 = c\<lparr>data := (data c)(key := None)\<rparr>;
               c2 = updateMemoryUsage sz item False c1
           in refresh_items c2)
      | None \<Rightarrow> c)"

fun delete_loop :: "any list \<Rightarrow> (any \<rightharpoonup> 'a) \<Rightarrow> (any \<rightharpoonup> 'a)" where
  "delete_loop [] m = m"
| "delete_loop (k # ks) m = delete_loop ks (m(k := None))"

definition DeleteAll :: "any list \<Rightarrow> ('v, 'w) Cache \<Rightarrow> ('v, 'w) Cache" where
  "DeleteAll ks c =
     (let c1 = c\<lparr>data := delete_loop ks (data c)\<rparr>
      in c1\<lparr>Metrics := (Metrics c1)\<lparr>memoryUsageBytes := 0, items := 0\<rparr>\<rparr>)"

section \<open>The maintenance tick\<close>

text \<open>
  What one tick takes from outside: the clock reading \<open>clock env key\<close> taken when the expire
  pass reaches \<open>key\<close>, and the orders of the four \<^verbatim>\<open>range\<close> loops of the locked section.
\<close>

record tick_env =
  clock :: "any \<Rightarrow> time"
  expire_order :: "any list"
  diff_order :: "any list"
  prev_order :: "any list"
  copy_order :: "any list"

text \<open>
  The inner loop of the expire pass: \<^verbatim>\<open>m(key.(string), item)\<close> for each expiry callback.
  The type assertion is evaluated at each call and panics on a key that is not a string.
  The callbacks run while the lock is held, so they cannot enter the cache: they act on
  the outer state only.
\<close>

fun call_expiry ::
  "(string \<Rightarrow> 'v Item \<Rightarrow> 'w \<Rightarrow> 'w) list \<Rightarrow> any \<Rightarrow> 'v Item \<Rightarrow> 'w \<Rightarrow> panic + 'w" where
  "call_expiry [] key item w = Inr w"
| "call_expiry (m # ms) key item w =
     (case key of
        AString s \<Rightarrow> call_expiry ms key item (m s item w)
      | _ \<Rightarrow> Inl TypeAssertion)"

text \<open>The expire pass; \<open>processed\<close> is \<^verbatim>\<open>processedDeletions\<close>.\<close>

fun expire_pass ::
  "sizes \<Rightarrow> (any \<Rightarrow> time) \<Rightarrow> any list \<Rightarrow> ('v, 'w) Cache \<Rightarrow> any set \<Rightarrow> 'w
     \<Rightarrow> panic + (('v, 'w) Cache \<times> any set \<times> 'w)" where
  "expire_pass sz now [] c processed w = Inr (c, processed, w)"
| "expire_pass sz now (key # ks) c processed w =
     (case data c key of
        None \<Rightarrow> expire_pass sz now ks c processed w
      | Some item \<Rightarrow>
          if \<not> IsZero (Expires item) \<and> Before (Expires item) (now key)
          then
            (let c1 = c\<lparr>updates_deleted := updates_deleted c @ [Value item]\<rparr> in
             case call_expiry (expiryMiddlewares c1) key item w of
               Inl e \<Rightarrow> Inl e
             | Inr w' \<Rightarrow>
                 (let c2 = c1\<lparr>data := (data c1)(key := None)\<rparr>;
                      c3 = updateMemoryUsage sz item False c2;
                      c4 = refresh_items c3
                  in expire_pass sz now ks c4 (insert key processed) w'))
          else expire_pass sz now ks c processed w)"

text \<open>The created/updated pass. Calling a nil \<^verbatim>\<open>compareFunc\<close> panics.\<close>

fun created_updated_pass :: "any list \<Rightarrow> ('v, 'w) Cache \<Rightarrow> panic + ('v, 'w) Cache" where
  "created_updated_pass [] c = Inr c"
| "created_updated_pass (key # ks) c =
     (case data c key of
        None \<Rightarrow> created_updated_pass ks c
      | Some item \<Rightarrow>
          (case prev c key of
             None \<Rightarrow>
               created_updated_pass ks (c\<lparr>updates_created := updates_created c @ [Value item]\<rparr>)
           | Some prevItem \<Rightarrow>
               (case compareFunc c of
                  None \<Rightarrow> Inl NilFuncCall
                | Some f \<Rightarrow>
                    if \<not> f (Value item) (Value prevItem)
                    then created_updated_pass ks
                           (c\<lparr>updates_updated := updates_updated c @ [Value item]\<rparr>)
                    else created_updated_pass ks c)))"

text \<open>The deleted pass, a range over \<^verbatim>\<open>c.prev\<close>.\<close>

fun deleted_pass :: "any list \<Rightarrow> any set \<Rightarrow> ('v, 'w) Cache \<Rightarrow> ('v, 'w) Cache" where
  "deleted_pass [] processed c = c"
| "deleted_pass (key # ks) processed c =
     (case prev c key of
        None \<Rightarrow> deleted_pass ks processed c
      | Some prevValue \<Rightarrow>
          if data c key = None
          then (if key \<notin> processed
                then deleted_pass ks processed
                       (c\<lparr>updates_deleted := updates_deleted c @ [Value prevValue]\<rparr>)
                else deleted_pass ks processed c)
          else deleted_pass ks processed c)"

text \<open>The copy loop that fills the fresh \<^verbatim>\<open>c.prev\<close>.\<close>

fun copy_pass :: "any list \<Rightarrow> ('v, 'w) Cache \<Rightarrow> ('v, 'w) Cache" where
  "copy_pass [] c = c"
| "copy_pass (key # ks) c =
     (case data c key of
        None \<Rightarrow> copy_pass ks c
      | Some item \<Rightarrow> copy_pass ks (c\<lparr>prev := (prev c)(key \<mapsto> item)\<rparr>))"

text \<open>The locked section of a tick, from \<^verbatim>\<open>c.Lock()\<close> to \<^verbatim>\<open>c.Unlock()\<close>.\<close>

definition tick_locked ::
  "sizes \<Rightarrow> tick_env \<Rightarrow> ('v, 'w) Cache \<Rightarrow> 'w \<Rightarrow> panic + (('v, 'w) Cache \<times> 'w)" where
  "tick_locked sz env c w =
     (case expire_pass sz (clock env) (expire_order env) c {} w of
        Inl e \<Rightarrow> Inl e
      | Inr (c1, processed, w1) \<Rightarrow>
          (case created_updated_pass (diff_order env) c1 of
             Inl e \<Rightarrow> Inl e
           | Inr c2 \<Rightarrow>
               (let c3 = deleted_pass (prev_order env) processed c2;
                    c4 = copy_pass (copy_order env) (c3\<lparr>prev := Map.empty\<rparr>)
                in Inr (c4, w1))))"

text \<open>A batch goes to every callback of its list, when it is not empty.\<close>

definition dispatch :: "('v list \<Rightarrow> 'w \<Rightarrow> 'w) list \<Rightarrow> 'v list \<Rightarrow> 'w \<Rightarrow> 'w" where
  "dispatch ms batch w = (if length batch > 0 then fold (\<lambda>m. m batch) ms w else w)"

text \<open>
  One whole tick: the body of \<^verbatim>\<open>case <-ticker.C\<close>. The create, update and delete
  callbacks are modelled on the outer state, like the others.
\<close>

definition tick ::
  "sizes \<Rightarrow> tick_env \<Rightarrow> ('v, 'w) Cache \<Rightarrow> 'w \<Rightarrow> panic + (('v, 'w) Cache \<times> 'w)" where
  "tick sz env c w =
     (let w0 = fold (\<lambda>m. m) (beforeTickMiddleware c) w in
      case tick_locked sz env c w0 of
        Inl e \<Rightarrow> Inl e
      | Inr (c1, w1) \<Rightarrow>
          (let w2 = dispatch (createMiddlewares c1) (updates_created c1) w1;
               w3 = dispatch (updateMiddlewares c1) (updates_updated c1) w2;
               w4 = dispatch (deleteMiddlewares c1) (updates_deleted c1) w3;
               c2 = c1\<lparr>updates_created := take 0 (updates_created c1),
                       updates_updated := take 0 (updates_updated c1),
                       updates_deleted := take 0 (updates_deleted c1)\<rparr>;
               w5 = fold (\<lambda>m. m) (afterTickMiddleware c2) w4
           in Inr (c2, w5)))"

section \<open>The maintenance loop\<close>

text \<open>
  \<^verbatim>\<open>time.NewTicker\<close> of the Go library panics when the duration is not positive.
\<close>

definition NewTicker :: "int \<Rightarrow> panic + unit" where
  "NewTicker d = (if d \<le> 0 then Inl NonPositiveInterval else Inr ())"

text \<open>
  What happens while \<^verbatim>\<open>Maintain\<close> runs: its \<^verbatim>\<open>select\<close> receives from the stop channel
  or from the ticker, and between two receives other goroutines call the cache. A call
  holds the lock of the cache, as the locked section of a tick does, so calls and ticks
  follow one another.
\<close>

datatype 'v call =
  CallSet any 'v "time list"
| CallGet 'v time any
| CallGetAll "any \<Rightarrow> time" "any list"
| CallDelete any
| CallDeleteAll "any list"

fun apply_call :: "sizes \<Rightarrow> 'v call \<Rightarrow> ('v, 'w) Cache \<Rightarrow> ('v, 'w) Cache" where
  "apply_call sz (CallSet key value expires) c = Set sz key value expires c"
| "apply_call sz (CallGet zero t key) c = snd (Get zero t key c)"
| "apply_call sz (CallGetAll t ks) c = snd (GetAll t ks c)"
| "apply_call sz (CallDelete key) c = Delete sz key c"
| "apply_call sz (CallDeleteAll ks) c = DeleteAll ks c"

datatype 'v event = RecvStop | RecvTick tick_env | Client "'v call"

datatype loop_status = Waiting | Returned

text \<open>
  The loop of \<^verbatim>\<open>Maintain\<close> over the events that reach it. When the events run out the
  loop is still waiting in its \<^verbatim>\<open>select\<close>; after a receive from the stop channel it has
  returned, and the calls that follow find the cache as it is.
\<close>

fun after_return :: "sizes \<Rightarrow> 'v event list \<Rightarrow> ('v, 'w) Cache \<Rightarrow> ('v, 'w) Cache" where
  "after_return sz [] c = c"
| "after_return sz (Client call # evs) c = after_return sz evs (apply_call sz call c)"
| "after_return sz (_ # evs) c = after_return sz evs c"

fun Maintain_loop ::
  "sizes \<Rightarrow> 'v event list \<Rightarrow> ('v, 'w) Cache \<Rightarrow> 'w
     \<Rightarrow> panic + (loop_status \<times> ('v, 'w) Cache \<times> 'w)" where
  "Maintain_loop sz [] c w = Inr (Waiting, c, w)"
| "Maintain_loop sz (RecvStop # evs) c w = Inr (Returned, after_return sz evs c, w)"
| "Maintain_loop sz (RecvTick env # evs) c w =
     (case tick sz env c w of
        Inl e \<Rightarrow> Inl e
      | Inr (c', w') \<Rightarrow> Maintain_loop sz evs c' w')"
| "Maintain_loop sz (Client call # evs) c w = Maintain_loop sz evs (apply_call sz call c) w"

definition Maintain ::
  "sizes \<Rightarrow> 'v event list \<Rightarrow> ('v, 'w) Cache \<Rightarrow> 'w
     \<Rightarrow> panic + (loop_status \<times> ('v, 'w) Cache \<times> 'w)" where
  "Maintain sz evs c w =
     (case NewTicker (interval c) of
        Inl e \<Rightarrow> Inl e
      | Inr _ \<Rightarrow> Maintain_loop sz evs c w)"

section \<open>Notions used to state the properties\<close>

text \<open>
  An entry is expired at \<open>t\<close> when its expiry timestamp is not the zero time and lies
  strictly before \<open>t\<close>.
\<close>

definition expired_at :: "time \<Rightarrow> 'v Item \<Rightarrow> bool" where
  "expired_at t item \<longleftrightarrow> Expires item \<noteq> 0 \<and> Expires item < t"

text \<open>A lookup misses when the key is absent or its entry is expired.\<close>

definition get_miss :: "time \<Rightarrow> (any \<rightharpoonup> 'v Item) \<Rightarrow> any \<Rightarrow> bool" where
  "get_miss t m key = (case m key of None \<Rightarrow> True | Some item \<Rightarrow> expired_at t item)"

definition count_miss :: "('v, 'w) Cache \<Rightarrow> ('v, 'w) Cache" where
  "count_miss c = c\<lparr>Metrics := (Metrics c)\<lparr>misses := misses (Metrics c) + 1\<rparr>\<rparr>"

definition count_hit :: "('v, 'w) Cache \<Rightarrow> ('v, 'w) Cache" where
  "count_hit c = c\<lparr>Metrics := (Metrics c)\<lparr>hits := hits (Metrics c) + 1\<rparr>\<rparr>"

text \<open>
  The sizes of the test suite (main_test.go) on a 64-bit platform: \<^verbatim>\<open>TestStruct\<close> is a
  string and an int (24 bytes), \<^verbatim>\<open>time.Time\<close> is 24 bytes, an item is both.
\<close>

definition TestStruct_sizes :: sizes where
  "TestStruct_sizes = \<lparr> sizeof_Item = 48, sizeof_Value = 24, sizeof_Time = 24 \<rparr>"

text \<open>
  The keys of \<open>ks\<close> whose entry in \<open>m\<close> is expired when the pass reaches them, in the
  order of \<open>ks\<close>; the values that \<open>m\<close> holds for a list of keys; the string that an
  expiry callback receives for a key.
\<close>

definition expired_keys :: "(any \<Rightarrow> time) \<Rightarrow> (any \<rightharpoonup> 'v Item) \<Rightarrow> any list \<Rightarrow> any list" where
  "expired_keys now m ks =
     filter (\<lambda>k. case m k of Some item \<Rightarrow> expired_at (now k) item | None \<Rightarrow> False) ks"

definition values_of :: "(any \<rightharpoonup> 'v Item) \<Rightarrow> any list \<Rightarrow> 'v list" where
  "values_of m ks = List.map_filter (\<lambda>k. map_option Value (m k)) ks"

fun key_string :: "any \<Rightarrow> string" where
  "key_string (AString s) = s"
| "key_string _ = []"

text \<open>
  Every callback of \<open>ms\<close>, in registration order, called once with the key and the item
  of each key of \<open>ks\<close>, in the order of \<open>ks\<close>.
\<close>

definition expiry_calls ::
  "(string \<Rightarrow> 'v Item \<Rightarrow> 'w \<Rightarrow> 'w) list \<Rightarrow> (any \<rightharpoonup> 'v Item) \<Rightarrow> any list \<Rightarrow> 'w \<Rightarrow> 'w" where
  "expiry_calls ms m ks w =
     fold (\<lambda>k w. case m k of
                    Some item \<Rightarrow> fold (\<lambda>f. f (key_string k) item) ms w
                  | None \<Rightarrow> w) ks w"

text \<open>The cache after the expire pass has removed one expired entry.\<close>

definition expire_entry :: "sizes \<Rightarrow> any \<Rightarrow> 'v Item \<Rightarrow> ('v, 'w) Cache \<Rightarrow> ('v, 'w) Cache" where
  "expire_entry sz key item c =
     refresh_items (updateMemoryUsage sz item False
       (c\<lparr>updates_deleted := updates_deleted c @ [Value item],
          data := (data c)(key := None)\<rparr>))"

text \<open>
  The bookkeeping of the metrics: \<open>store_size\<close> is the sum of the size estimates of the
  entries of a store.
\<close>

definition store_size :: "sizes \<Rightarrow> (any \<rightharpoonup> 'v Item) \<Rightarrow> int" where
  "store_size sz m = (\<Sum>k \<in> dom m. case m k of Some item \<Rightarrow> item_size sz item | None \<Rightarrow> 0)"

definition accounting_ok :: "sizes \<Rightarrow> ('v, 'w) Cache \<Rightarrow> bool" where
  "accounting_ok sz c \<longleftrightarrow>
     finite (dom (data c)) \<and>
     items (Metrics c) = int (card (dom (data c))) \<and>
     memoryUsageBytes (Metrics c) = store_size sz (data c)"

text \<open>
  The keys of a range order \<open>ks\<close> that a tick reports: created (in the store, not in the
  snapshot), updated (in both, with values that the equality predicate tells apart) and
  deleted from outside (in the snapshot, not in the store, and not marked by the expire
  pass).
\<close>

definition created_keys ::
  "(any \<rightharpoonup> 'v Item) \<Rightarrow> (any \<rightharpoonup> 'v Item) \<Rightarrow> any list \<Rightarrow> any list" where
  "created_keys snapshot store ks = filter (\<lambda>k. store k \<noteq> None \<and> snapshot k = None) ks"

definition updated_keys ::
  "('v \<Rightarrow> 'v \<Rightarrow> bool) \<Rightarrow> (any \<rightharpoonup> 'v Item) \<Rightarrow> (any \<rightharpoonup> 'v Item) \<Rightarrow> any list \<Rightarrow> any list" where
  "updated_keys eq snapshot store ks =
     filter (\<lambda>k. case store k of
                    None \<Rightarrow> False
                  | Some item \<Rightarrow>
                      (case snapshot k of
                         None \<Rightarrow> False
                       | Some prevItem \<Rightarrow> \<not> eq (Value item) (Value prevItem))) ks"

definition deleted_keys ::
  "(any \<rightharpoonup> 'v Item) \<Rightarrow> (any \<rightharpoonup> 'v Item) \<Rightarrow> any set \<Rightarrow> any list \<Rightarrow> any list" where
  "deleted_keys snapshot store processed ks =
     filter (\<lambda>k. snapshot k \<noteq> None \<and> store k = None \<and> k \<notin> processed) ks"

text \<open>
  The four range orders of a tick are orders of the maps that the loops range over: the
  store at the start of the tick (expire pass), the store as the expire pass leaves it,
  which is the store \<open>c'\<close> at the end of the tick (created/updated pass and copy), and the
  snapshot at the start of the tick (deleted pass).
\<close>

definition tick_orders :: "tick_env \<Rightarrow> ('v, 'w) Cache \<Rightarrow> ('v, 'w) Cache \<Rightarrow> bool" where
  "tick_orders env c c' \<longleftrightarrow>
     range_order (expire_order env) (data c) \<and>
     range_order (diff_order env) (data c') \<and>
     range_order (prev_order env) (prev c) \<and>
     range_order (copy_order env) (data c')"

text \<open>The keys that were deleted by callers: in the snapshot and not in the store.\<close>

definition externally_deleted ::
  "(any \<rightharpoonup> 'v Item) \<Rightarrow> (any \<rightharpoonup> 'v Item) \<Rightarrow> any list \<Rightarrow> any list" where
  "externally_deleted snapshot store ks = filter (\<lambda>k. snapshot k \<noteq> None \<and> store k = None) ks"

text \<open>
  The caches that a program can reach: from \<^verbatim>\<open>New\<close>, by configuration, by calls of the
  store operations and by ticks that do not panic. A \<^verbatim>\<open>DeleteAll\<close> ranges over the store
  in one of its range orders.
\<close>

fun call_ok :: "'v call \<Rightarrow> ('v, 'w) Cache \<Rightarrow> bool" where
  "call_ok (CallDeleteAll ks) c = range_order ks (data c)"
| "call_ok _ c = True"

inductive reachable :: "sizes \<Rightarrow> ('v, 'w) Cache \<Rightarrow> bool" for sz :: sizes where
  reach_New: "reachable sz New"
| reach_Equals: "reachable sz c \<Longrightarrow> reachable sz (Equals f c)"
| reach_WithInterval: "reachable sz c \<Longrightarrow> reachable sz (WithInterval d c)"
| reach_OnCreate: "reachable sz c \<Longrightarrow> reachable sz (OnCreate m c)"
| reach_OnUpdate: "reachable sz c \<Longrightarrow> reachable sz (OnUpdate m c)"
| reach_OnDelete: "reachable sz c \<Longrightarrow> reachable sz (OnDelete m c)"
| reach_OnExpiry: "reachable sz c \<Longrightarrow> reachable sz (OnExpiry x c)"
| reach_OnBeforeTick: "reachable sz c \<Longrightarrow> reachable sz (OnBeforeTick t c)"
| reach_OnAfterTick: "reachable sz c \<Longrightarrow> reachable sz (OnAfterTick t c)"
| reach_call: "reachable sz c \<Longrightarrow> call_ok call c \<Longrightarrow> reachable sz (apply_call sz call c)"
| reach_tick: "reachable sz c \<Longrightarrow> tick sz env c w = Inr (c', w') \<Longrightarrow> reachable sz c'"

section \<open>Basic facts\<close>

lemma updateMemoryUsage_fields [simp]:
  "data (updateMemoryUsage sz i b c) = data c"
  "prev (updateMemoryUsage sz i b c) = prev c"
  "interval (updateMemoryUsage sz i b c) = interval c"
  "compareFunc (updateMemoryUsage sz i b c) = compareFunc c"
  "updates_created (updateMemoryUsage sz i b c) = updates_created c"
  "updates_updated (updateMemoryUsage sz i b c) = updates_updated c"
  "updates_deleted (updateMemoryUsage sz i b c) = updates_deleted c"
  "expiryMiddlewares (updateMemoryUsage sz i b c) = expiryMiddlewares c"
  "hits (Metrics (updateMemoryUsage sz i b c)) = hits (Metrics c)"
  "misses (Metrics (updateMemoryUsage sz i b c)) = misses (Metrics c)"
  "items (Metrics (updateMemoryUsage sz i b c)) = items (Metrics c)"
  "memoryUsageBytes (Metrics (updateMemoryUsage sz i b c)) =
     (if b then memoryUsageBytes (Metrics c) + item_size sz i
      else memoryUsageBytes (Metrics c) - item_size sz i)"
  by (simp_all add: updateMemoryUsage_def Let_def)

lemma refresh_items_fields [simp]:
  "data (refresh_items c) = data c"
  "prev (refresh_items c) = prev c"
  "interval (refresh_items c) = interval c"
  "compareFunc (refresh_items c) = compareFunc c"
  "updates_created (refresh_items c) = updates_created c"
  "updates_updated (refresh_items c) = updates_updated c"
  "updates_deleted (refresh_items c) = updates_deleted c"
  "expiryMiddlewares (refresh_items c) = expiryMiddlewares c"
  "hits (Metrics (refresh_items c)) = hits (Metrics c)"
  "misses (Metrics (refresh_items c)) = misses (Metrics c)"
  "items (Metrics (refresh_items c)) = int (card (dom (data c)))"
  "memoryUsageBytes (Metrics (refresh_items c)) = memoryUsageBytes (Metrics c)"
  by (simp_all add: refresh_items_def)

lemma Set_data:
  "data (Set sz key v es c) =
     (data c)(key \<mapsto> \<lparr>Value = v, Expires = (if es = [] then zero_time else hd es)\<rparr>)"
  by (cases es) (simp_all add: Set_def Let_def split: option.split)

section \<open>Get\<close>

lemma Get_miss:
  "get_miss t (data c) key \<Longrightarrow> Get zero t key c = ((zero, False), count_miss c)"
  by (auto simp: Get_def get_miss_def expired_at_def count_miss_def IsZero_def Before_def
      Let_def split: option.splits)

lemma Get_hit:
  "\<not> get_miss t (data c) key \<Longrightarrow>
     \<exists>item. data c key = Some item \<and> Get zero t key c = ((Value item, True), count_hit c)"
  by (auto simp: Get_def get_miss_def expired_at_def count_hit_def IsZero_def Before_def
      Let_def split: option.splits)

text \<open>
  C4. \<^verbatim>\<open>Get(key)\<close> called at time \<open>t\<close> returns the zero value with found = false and adds
  one to \<^verbatim>\<open>misses\<close> exactly when the key is absent from the store or its expiry timestamp
  is not zero and strictly before \<open>t\<close>; no tick is involved. Otherwise it returns the stored
  value with found = true and adds one to \<^verbatim>\<open>hits\<close>. Right after a \<^verbatim>\<open>Set\<close> without expiry,
  \<^verbatim>\<open>Get\<close> of the same key returns the value and true.
\<close>

theorem Get_hit_or_miss:
  "(get_miss t (data c) key \<longrightarrow> Get zero t key c = ((zero, False), count_miss c)) \<and>
   (\<not> get_miss t (data c) key \<longrightarrow>
      (\<exists>item. data c key = Some item \<and> Get zero t key c = ((Value item, True), count_hit c))) \<and>
   (snd (fst (Get zero t key c)) = False \<longleftrightarrow> get_miss t (data c) key) \<and>
   fst (Get zero t key (Set sz key v [] c)) = (v, True)"
proof -
  have a: "get_miss t (data c) key \<longrightarrow> Get zero t key c = ((zero, False), count_miss c)"
    by (simp add: Get_miss)
  have b: "\<not> get_miss t (data c) key \<longrightarrow>
      (\<exists>item. data c key = Some item \<and> Get zero t key c = ((Value item, True), count_hit c))"
    by (simp add: Get_hit)
  have c: "snd (fst (Get zero t key c)) = False \<longleftrightarrow> get_miss t (data c) key"
    using a b by (cases "get_miss t (data c) key") auto
  have "\<not> get_miss t (data (Set sz key v [] c)) key"
    by (simp add: Set_data get_miss_def expired_at_def zero_time_def)
  from Get_hit [OF this, of zero] have d: "fst (Get zero t key (Set sz key v [] c)) = (v, True)"
    by (auto simp: Set_data)
  from a b c d show ?thesis by blast
qed

theorem Get_hit_or_miss_witness:
  "Get (0::int) 5 (AString ''a'')
       (Set TestStruct_sizes (AString ''a'') 7 [3] (New :: (int, unit) Cache))
     = ((0, False), count_miss (Set TestStruct_sizes (AString ''a'') 7 [3] New)) \<and>
   Get (0::int) 2 (AString ''a'')
       (Set TestStruct_sizes (AString ''a'') 7 [3] (New :: (int, unit) Cache))
     = ((7, True), count_hit (Set TestStruct_sizes (AString ''a'') 7 [3] New))"
  using Get_hit_or_miss [of 5
      "Set TestStruct_sizes (AString ''a'') 7 [3] (New :: (int, unit) Cache)"
      "AString ''a''" 0 TestStruct_sizes 7]
    Get_hit_or_miss [of 2
      "Set TestStruct_sizes (AString ''a'') 7 [3] (New :: (int, unit) Cache)"
      "AString ''a''" 0 TestStruct_sizes 7]
  by (simp add: Set_data get_miss_def expired_at_def)

lemma Set_fields [simp]:
  "prev (Set sz key v es c) = prev c"
  "interval (Set sz key v es c) = interval c"
  "compareFunc (Set sz key v es c) = compareFunc c"
  "updates_created (Set sz key v es c) = updates_created c"
  "updates_updated (Set sz key v es c) = updates_updated c"
  "updates_deleted (Set sz key v es c) = updates_deleted c"
  "expiryMiddlewares (Set sz key v es c) = expiryMiddlewares c"
  "hits (Metrics (Set sz key v es c)) = hits (Metrics c)"
  "misses (Metrics (Set sz key v es c)) = misses (Metrics c)"
  by (simp_all add: Set_def Let_def split: option.split)

section \<open>Delete\<close>

lemma Delete_absent: "data c key = None \<Longrightarrow> Delete sz key c = c"
  by (simp add: Delete_def)

lemma Delete_present:
  "data c key = Some item \<Longrightarrow>
     Delete sz key c =
       c\<lparr>data := (data c)(key := None),
         Metrics := (Metrics c)\<lparr>memoryUsageBytes := memoryUsageBytes (Metrics c) - item_size sz item,
                               items := int (card (dom (data c) - {key}))\<rparr>\<rparr>"
  by (simp add: Delete_def Let_def updateMemoryUsage_def refresh_items_def)

text \<open>
  C8. \<^verbatim>\<open>Delete(key)\<close> of a key that is not in the store returns the cache as it was: the
  store, \<^verbatim>\<open>items\<close>, \<^verbatim>\<open>memoryUsageBytes\<close>, \<^verbatim>\<open>hits\<close> and \<^verbatim>\<open>misses\<close> are unchanged and nothing
  fails. For a key that is in the store it removes the entry, subtracts the entry's size
  estimate from \<^verbatim>\<open>memoryUsageBytes\<close> and sets \<^verbatim>\<open>items\<close> to the new number of entries.
\<close>

theorem Delete_absent_noop:
  "(data c key = None \<longrightarrow> Delete sz key c = c) \<and>
   (\<forall>item. data c key = Some item \<longrightarrow>
      data (Delete sz key c) = (data c)(key := None) \<and>
      memoryUsageBytes (Metrics (Delete sz key c)) =
        memoryUsageBytes (Metrics c) - item_size sz item \<and>
      items (Metrics (Delete sz key c)) = int (card (dom (data (Delete sz key c)))) \<and>
      hits (Metrics (Delete sz key c)) = hits (Metrics c) \<and>
      misses (Metrics (Delete sz key c)) = misses (Metrics c))"
  by (auto simp: Delete_absent Delete_present)

theorem Delete_absent_noop_witness:
  "Delete TestStruct_sizes (AString ''b'')
     (Set TestStruct_sizes (AString ''a'') (1::int) [] (New :: (int, unit) Cache))
     = Set TestStruct_sizes (AString ''a'') 1 [] New \<and>
   data (Delete TestStruct_sizes (AString ''a'')
     (Set TestStruct_sizes (AString ''a'') (1::int) [] (New :: (int, unit) Cache))) = Map.empty \<and>
   memoryUsageBytes (Metrics (Delete TestStruct_sizes (AString ''a'')
     (Set TestStruct_sizes (AString ''a'') (1::int) [] (New :: (int, unit) Cache)))) = 0"
  using Delete_absent_noop
      [of "Set TestStruct_sizes (AString ''a'') (1::int) [] (New :: (int, unit) Cache)"
        "AString ''b''" TestStruct_sizes]
    Delete_absent_noop
      [of "Set TestStruct_sizes (AString ''a'') (1::int) [] (New :: (int, unit) Cache)"
        "AString ''a''" TestStruct_sizes]
  by (simp add: Set_data New_def Set_def Let_def item_size_def)

section \<open>The optional expiry of Set\<close>

lemma Set_first_expiry: "Set sz key v (e # es) c = Set sz key v [e] c"
  by (simp add: Set_def)

lemma expire_pass_keeps:
  "data c key = Some item \<Longrightarrow> Expires item = zero_time \<Longrightarrow>
   expire_pass sz now [key] c p w = Inr (c, p, w)"
  by (simp add: IsZero_def zero_time_def)

text \<open>
  C10. \<^verbatim>\<open>Set\<close> takes any number of expiry timestamps. With none the item gets the zero
  timestamp and never expires: \<^verbatim>\<open>Get\<close> finds it at every time and the expire pass of a
  tick leaves it in place. With one or more, the first is the item's expiry and the
  others have no effect at all.
\<close>

theorem Set_optional_expiry:
  "data (Set sz key v [] c) key = Some \<lparr>Value = v, Expires = zero_time\<rparr> \<and>
   IsZero zero_time \<and>
   fst (Get zero t key (Set sz key v [] c)) = (v, True) \<and>
   expire_pass sz now [key] (Set sz key v [] c) p w = Inr (Set sz key v [] c, p, w) \<and>
   data (Set sz key v (e # es) c) key = Some \<lparr>Value = v, Expires = e\<rparr> \<and>
   Set sz key v (e # es) c = Set sz key v [e] c"
proof -
  have "Set sz key v (e # es) c = Set sz key v [e] c"
    by (rule Set_first_expiry)
  moreover have "expire_pass sz now [key] (Set sz key v [] c) p w = Inr (Set sz key v [] c, p, w)"
    by (rule expire_pass_keeps [where item = "\<lparr>Value = v, Expires = zero_time\<rparr>"])
       (simp_all add: Set_data)
  moreover have "fst (Get zero t key (Set sz key v [] c)) = (v, True)"
    by (simp add: Get_def Set_data IsZero_def zero_time_def)
  ultimately show ?thesis
    by (simp add: Set_data IsZero_def zero_time_def)
qed

section \<open>The expire pass\<close>

lemma expired_at_iff: "expired_at t item \<longleftrightarrow> \<not> IsZero (Expires item) \<and> Before (Expires item) t"
  by (simp add: expired_at_def IsZero_def Before_def)

lemma call_expiry_Inr:
  "call_expiry ms key item w = Inr w' \<Longrightarrow> w' = fold (\<lambda>f. f (key_string key) item) ms w"
  by (induction ms arbitrary: w) (auto split: any.splits)

lemma call_expiry_string:
  "call_expiry ms (AString s) item w = Inr (fold (\<lambda>f. f s item) ms w)"
  by (induction ms arbitrary: w) auto

lemma call_expiry_Inl: "call_expiry ms key item w = Inl e \<Longrightarrow> e = TypeAssertion"
  by (induction ms arbitrary: w) (auto split: any.splits)

lemma expire_pass_Cons_skip:
  "(case data c key of None \<Rightarrow> True | Some item \<Rightarrow> \<not> expired_at (now key) item) \<Longrightarrow>
   expire_pass sz now (key # ks) c p w = expire_pass sz now ks c p w"
  by (auto simp: expired_at_iff split: option.splits)

lemma expire_pass_Cons_expired:
  "data c key = Some item \<Longrightarrow> expired_at (now key) item \<Longrightarrow>
   call_expiry (expiryMiddlewares c) key item w = Inr w1 \<Longrightarrow>
   expire_pass sz now (key # ks) c p w =
     expire_pass sz now ks (expire_entry sz key item c) (insert key p) w1"
  by (simp add: expired_at_iff expire_entry_def Let_def)

lemma expire_pass_Cons_panic:
  "data c key = Some item \<Longrightarrow> expired_at (now key) item \<Longrightarrow>
   call_expiry (expiryMiddlewares c) key item w = Inl e \<Longrightarrow>
   expire_pass sz now (key # ks) c p w = Inl e"
  by (simp add: expired_at_iff Let_def)

lemma expire_entry_fields [simp]:
  "data (expire_entry sz key item c) = (data c)(key := None)"
  "prev (expire_entry sz key item c) = prev c"
  "interval (expire_entry sz key item c) = interval c"
  "compareFunc (expire_entry sz key item c) = compareFunc c"
  "updates_created (expire_entry sz key item c) = updates_created c"
  "updates_updated (expire_entry sz key item c) = updates_updated c"
  "updates_deleted (expire_entry sz key item c) = updates_deleted c @ [Value item]"
  "expiryMiddlewares (expire_entry sz key item c) = expiryMiddlewares c"
  "hits (Metrics (expire_entry sz key item c)) = hits (Metrics c)"
  "misses (Metrics (expire_entry sz key item c)) = misses (Metrics c)"
  "items (Metrics (expire_entry sz key item c)) = int (card (dom (data c) - {key}))"
  "memoryUsageBytes (Metrics (expire_entry sz key item c)) =
     memoryUsageBytes (Metrics c) - item_size sz item"
  by (simp_all add: expire_entry_def)

lemma expired_keys_Nil [simp]: "expired_keys now m [] = []"
  by (simp add: expired_keys_def)

lemma expired_keys_cong:
  "(\<And>k. k \<in> set ks \<Longrightarrow> m k = m' k) \<Longrightarrow> expired_keys now m ks = expired_keys now m' ks"
  unfolding expired_keys_def by (rule filter_cong) auto

lemma values_of_Nil [simp]: "values_of m [] = []"
  by (simp add: values_of_def)

lemma values_of_Cons:
  "values_of m (k # ks) = (case m k of Some item \<Rightarrow> Value item # values_of m ks | None \<Rightarrow> values_of m ks)"
  by (simp add: values_of_def split: option.split)

lemma values_of_cong:
  "\<forall>k \<in> set ks. m k = m' k \<Longrightarrow> values_of m ks = values_of m' ks"
  by (induction ks) (auto simp: values_of_Cons split: option.split)

lemma values_of_append [simp]: "values_of m (xs @ ys) = values_of m xs @ values_of m ys"
  by (induction xs) (simp_all add: values_of_Cons split: option.split)

lemma expiry_calls_Nil [simp]: "expiry_calls ms m [] w = w"
  by (simp add: expiry_calls_def)

lemma expiry_calls_Cons:
  "expiry_calls ms m (k # ks) w =
     expiry_calls ms m ks (case m k of Some item \<Rightarrow> fold (\<lambda>f. f (key_string k) item) ms w | None \<Rightarrow> w)"
  by (simp add: expiry_calls_def)

lemma expiry_calls_cong:
  "\<forall>k \<in> set ks. m k = m' k \<Longrightarrow> expiry_calls ms m ks w = expiry_calls ms m' ks w"
  by (induction ks arbitrary: w) (auto simp: expiry_calls_Cons split: option.split)

lemma set_expired_keys_subset: "set (expired_keys now m ks) \<subseteq> set ks \<inter> dom m"
  by (auto simp: expired_keys_def split: option.splits)

lemma expired_keys_Cons:
  "expired_keys now m (k # ks) =
     (if (case m k of Some item \<Rightarrow> expired_at (now k) item | None \<Rightarrow> False)
      then k # expired_keys now m ks else expired_keys now m ks)"
  by (simp add: expired_keys_def)

lemma expire_pass_result:
  "distinct ks \<Longrightarrow> expire_pass sz now ks c p w = Inr (c', p', w') \<Longrightarrow>
     data c' = (\<lambda>k. if k \<in> set (expired_keys now (data c) ks) then None else data c k) \<and>
     p' = p \<union> set (expired_keys now (data c) ks) \<and>
     updates_deleted c' = updates_deleted c @ values_of (data c) (expired_keys now (data c) ks) \<and>
     w' = expiry_calls (expiryMiddlewares c) (data c) (expired_keys now (data c) ks) w"
proof (induction ks arbitrary: c p w)
  case Nil
  then show ?case by auto
next
  case (Cons key ks)
  show ?case
  proof (cases "case data c key of None \<Rightarrow> True | Some item \<Rightarrow> \<not> expired_at (now key) item")
    case True
    then have ek: "expired_keys now (data c) (key # ks) = expired_keys now (data c) ks"
      by (auto simp: expired_keys_Cons split: option.splits)
    from True Cons.prems have "expire_pass sz now ks c p w = Inr (c', p', w')"
      by (simp only: expire_pass_Cons_skip)
    with Cons.IH [of c p w] Cons.prems(1) show ?thesis
      unfolding ek by simp
  next
    case False
    then obtain item where it: "data c key = Some item" "expired_at (now key) item"
      by (auto split: option.splits)
    then have ek: "expired_keys now (data c) (key # ks) = key # expired_keys now (data c) ks"
      by (simp add: expired_keys_Cons)
    show ?thesis
    proof (cases "call_expiry (expiryMiddlewares c) key item w")
      case (Inl e)
      with it Cons.prems show ?thesis
        by (simp only: expire_pass_Cons_panic) simp
    next
      case (Inr w1)
      let ?c1 = "expire_entry sz key item c"
      from it Inr Cons.prems have run: "expire_pass sz now ks ?c1 (insert key p) w1 = Inr (c', p', w')"
        by (simp only: expire_pass_Cons_expired)
      from Cons.prems(1) have nk: "key \<notin> set ks" and d: "distinct ks" by auto
      have agree: "\<And>k. k \<in> set ks \<Longrightarrow> data ?c1 k = data c k"
        using nk by auto
      have e1: "expired_keys now (data ?c1) ks = expired_keys now (data c) ks"
        by (rule expired_keys_cong) (rule agree)
      have sub: "set (expired_keys now (data c) ks) \<subseteq> set ks"
        using set_expired_keys_subset by fastforce
      have v1: "values_of (data ?c1) (expired_keys now (data c) ks)
                  = values_of (data c) (expired_keys now (data c) ks)"
        by (rule values_of_cong) (use sub agree in blast)
      have x1: "\<And>u. expiry_calls (expiryMiddlewares ?c1) (data ?c1) (expired_keys now (data c) ks) u
                  = expiry_calls (expiryMiddlewares ?c1) (data c) (expired_keys now (data c) ks) u"
        by (rule expiry_calls_cong) (use sub agree in blast)
      have ih: "data c' = (\<lambda>k. if k \<in> set (expired_keys now (data c) ks) then None else data ?c1 k) \<and>
        p' = insert key p \<union> set (expired_keys now (data c) ks) \<and>
        updates_deleted c' = updates_deleted ?c1 @ values_of (data c) (expired_keys now (data c) ks) \<and>
        w' = expiry_calls (expiryMiddlewares ?c1) (data c) (expired_keys now (data c) ks) w1"
        using Cons.IH [OF d run] unfolding e1 v1 x1 .
      have w1: "w1 = fold (\<lambda>f. f (key_string key) item) (expiryMiddlewares c) w"
        using Inr by (rule call_expiry_Inr)
      show ?thesis
        unfolding ek using ih it w1
        by (auto simp: values_of_Cons expiry_calls_Cons fun_eq_iff)
    qed
  qed
qed

section \<open>The created/updated pass, the deleted pass and the copy of the store\<close>

lemma created_updated_pass_result:
  "compareFunc c = Some eq \<Longrightarrow>
   created_updated_pass ks c =
     Inr (c\<lparr>updates_created :=
              updates_created c @ values_of (data c) (created_keys (prev c) (data c) ks),
            updates_updated :=
              updates_updated c @ values_of (data c) (updated_keys eq (prev c) (data c) ks)\<rparr>)"
proof (induction ks arbitrary: c)
  case Nil
  then show ?case by (simp add: created_keys_def updated_keys_def)
next
  case (Cons key ks)
  show ?case
  proof (cases "data c key")
    case None
    then show ?thesis
      using Cons.IH [OF Cons.prems]
      by (simp add: created_keys_def updated_keys_def)
  next
    case (Some item)
    show ?thesis
    proof (cases "prev c key")
      case None
      let ?c1 = "c\<lparr>updates_created := updates_created c @ [Value item]\<rparr>"
      have "compareFunc ?c1 = Some eq" using Cons.prems by simp
      from Cons.IH [OF this] Some None show ?thesis
        by (simp add: created_keys_def updated_keys_def values_of_Cons)
    next
      case (Some prevItem)
      note pv = this
      show ?thesis
      proof (cases "eq (Value item) (Value prevItem)")
        case True
        with Cons.IH [OF Cons.prems] \<open>data c key = Some item\<close> pv Cons.prems show ?thesis
          by (simp add: created_keys_def updated_keys_def)
      next
        case False
        let ?c1 = "c\<lparr>updates_updated := updates_updated c @ [Value item]\<rparr>"
        have "compareFunc ?c1 = Some eq" using Cons.prems by simp
        from Cons.IH [OF this] \<open>data c key = Some item\<close> pv False Cons.prems show ?thesis
          by (simp add: created_keys_def updated_keys_def values_of_Cons)
      qed
    qed
  qed
qed

lemma created_updated_pass_nil:
  "compareFunc c = None \<Longrightarrow>
   created_updated_pass ks c =
     (if \<exists>k \<in> set ks. data c k \<noteq> None \<and> prev c k \<noteq> None then Inl NilFuncCall
      else Inr (c\<lparr>updates_created :=
              updates_created c @ values_of (data c) (created_keys (prev c) (data c) ks)\<rparr>))"
proof (induction ks arbitrary: c)
  case Nil
  then show ?case by (simp add: created_keys_def)
next
  case (Cons key ks)
  show ?case
  proof (cases "data c key")
    case None
    then show ?thesis
      using Cons.IH [OF Cons.prems]
      by (simp add: created_keys_def)
  next
    case (Some item)
    show ?thesis
    proof (cases "prev c key")
      case None
      let ?c1 = "c\<lparr>updates_created := updates_created c @ [Value item]\<rparr>"
      have "compareFunc ?c1 = None" using Cons.prems by simp
      from Cons.IH [OF this] Some None show ?thesis
        by (simp add: created_keys_def values_of_Cons)
    next
      case (Some prevItem)
      with \<open>data c key = Some item\<close> Cons.prems show ?thesis
        by simp
    qed
  qed
qed

lemma deleted_pass_result:
  "deleted_pass ks p c =
     c\<lparr>updates_deleted :=
         updates_deleted c @ values_of (prev c) (deleted_keys (prev c) (data c) p ks)\<rparr>"
proof (induction ks arbitrary: c)
  case Nil
  then show ?case by (simp add: deleted_keys_def)
next
  case (Cons key ks)
  show ?case
  proof (cases "prev c key")
    case None
    then show ?thesis using Cons.IH [of c] by (simp add: deleted_keys_def)
  next
    case (Some prevValue)
    show ?thesis
    proof (cases "data c key = None \<and> key \<notin> p")
      case True
      let ?c1 = "c\<lparr>updates_deleted := updates_deleted c @ [Value prevValue]\<rparr>"
      from Cons.IH [of ?c1] Some True show ?thesis
        by (simp add: deleted_keys_def values_of_Cons)
    next
      case False
      with Cons.IH [of c] Some show ?thesis
        by (auto simp: deleted_keys_def)
    qed
  qed
qed

lemma copy_pass_result:
  "copy_pass ks c = c\<lparr>prev := prev c ++ (data c |` set ks)\<rparr>"
proof (induction ks arbitrary: c)
  case Nil
  then show ?case by simp
next
  case (Cons key ks)
  show ?case
  proof (cases "data c key")
    case None
    have "data c |` set (key # ks) = data c |` set ks"
      using None by (auto simp: restrict_map_def fun_eq_iff)
    with None Cons.IH [of c] show ?thesis by simp
  next
    case (Some item)
    let ?c1 = "c\<lparr>prev := (prev c)(key \<mapsto> item)\<rparr>"
    have eq: "prev ?c1 ++ (data ?c1 |` set ks) = prev c ++ (data c |` set (key # ks))"
      using Some by (auto simp: restrict_map_def map_add_def fun_eq_iff split: option.splits)
    have "copy_pass (key # ks) c = copy_pass ks ?c1"
      using Some by simp
    also have "\<dots> = ?c1\<lparr>prev := prev ?c1 ++ (data ?c1 |` set ks)\<rparr>"
      by (rule Cons.IH)
    also have "\<dots> = ?c1\<lparr>prev := prev c ++ (data c |` set (key # ks))\<rparr>"
      by (simp only: eq)
    also have "\<dots> = c\<lparr>prev := prev c ++ (data c |` set (key # ks))\<rparr>"
      by simp
    finally show ?thesis .
  qed
qed

lemma restrict_map_dom_self: "m |` dom m = m"
  by (auto simp: restrict_map_def fun_eq_iff domIff)

lemma copy_pass_snapshot:
  "range_order ks (data c) \<Longrightarrow> copy_pass ks (c\<lparr>prev := Map.empty\<rparr>) = c\<lparr>prev := data c\<rparr>"
  by (simp add: copy_pass_result range_order_def restrict_map_dom_self)

section \<open>The locked section of a tick\<close>

lemma expire_pass_frame:
  "expire_pass sz now ks c p w = Inr (c', p', w') \<Longrightarrow>
     prev c' = prev c \<and> compareFunc c' = compareFunc c \<and> interval c' = interval c \<and>
     updates_created c' = updates_created c \<and> updates_updated c' = updates_updated c \<and>
     expiryMiddlewares c' = expiryMiddlewares c \<and>
     hits (Metrics c') = hits (Metrics c) \<and> misses (Metrics c') = misses (Metrics c)"
proof (induction ks arbitrary: c p w)
  case Nil
  then show ?case by auto
next
  case (Cons key ks)
  show ?case
  proof (cases "case data c key of None \<Rightarrow> True | Some item \<Rightarrow> \<not> expired_at (now key) item")
    case True
    with Cons.prems have "expire_pass sz now ks c p w = Inr (c', p', w')"
      by (simp only: expire_pass_Cons_skip)
    then show ?thesis by (rule Cons.IH)
  next
    case False
    then obtain item where it: "data c key = Some item" "expired_at (now key) item"
      by (auto split: option.splits)
    show ?thesis
    proof (cases "call_expiry (expiryMiddlewares c) key item w")
      case (Inl e)
      with it Cons.prems show ?thesis
        by (simp only: expire_pass_Cons_panic) simp
    next
      case (Inr w1)
      with it Cons.prems
      have "expire_pass sz now ks (expire_entry sz key item c) (insert key p) w1 = Inr (c', p', w')"
        by (simp only: expire_pass_Cons_expired)
      from Cons.IH [OF this] show ?thesis by simp
    qed
  qed
qed

lemma tick_locked_result:
  assumes run: "tick_locked sz env c w = Inr (c', w')"
    and dist: "distinct (expire_order env)"
    and cmp: "compareFunc c = Some eq"
  shows "data c' = (\<lambda>k. if k \<in> set (expired_keys (clock env) (data c) (expire_order env))
                         then None else data c k)"
    and "updates_created c' =
           updates_created c @ values_of (data c') (created_keys (prev c) (data c') (diff_order env))"
    and "updates_updated c' =
           updates_updated c @
           values_of (data c') (updated_keys eq (prev c) (data c') (diff_order env))"
    and "updates_deleted c' =
           updates_deleted c @
           values_of (data c) (expired_keys (clock env) (data c) (expire_order env)) @
           values_of (prev c)
             (deleted_keys (prev c) (data c')
                (set (expired_keys (clock env) (data c) (expire_order env))) (prev_order env))"
    and "w' = expiry_calls (expiryMiddlewares c) (data c)
                (expired_keys (clock env) (data c) (expire_order env)) w"
    and "prev c' = data c' |` set (copy_order env)"
proof -
  from run obtain c1 p1 w1 where
    ex: "expire_pass sz (clock env) (expire_order env) c {} w = Inr (c1, p1, w1)"
    by (auto simp: tick_locked_def split: sum.splits)
  note fr = expire_pass_frame [OF ex]
  note res = expire_pass_result [OF dist ex]
  have cmp1: "compareFunc c1 = Some eq" using fr cmp by simp
  let ?c2 = "c1\<lparr>updates_created :=
              updates_created c1 @ values_of (data c1) (created_keys (prev c1) (data c1) (diff_order env)),
            updates_updated :=
              updates_updated c1 @ values_of (data c1) (updated_keys eq (prev c1) (data c1) (diff_order env))\<rparr>"
  have cu: "created_updated_pass (diff_order env) c1 = Inr ?c2"
    by (rule created_updated_pass_result [OF cmp1])
  let ?c3 = "deleted_pass (prev_order env) p1 ?c2"
  from run ex cu have c': "c' = copy_pass (copy_order env) (?c3\<lparr>prev := Map.empty\<rparr>)"
    and w': "w' = w1"
    by (simp_all add: tick_locked_def Let_def)
  have d: "data c' = data c1"
    unfolding c' by (simp add: copy_pass_result deleted_pass_result)
  show "data c' = (\<lambda>k. if k \<in> set (expired_keys (clock env) (data c) (expire_order env))
                         then None else data c k)"
    using d res by simp
  show "updates_created c' =
           updates_created c @ values_of (data c') (created_keys (prev c) (data c') (diff_order env))"
    unfolding d unfolding c' using fr by (simp add: copy_pass_result deleted_pass_result)
  show "updates_updated c' =
           updates_updated c @
           values_of (data c') (updated_keys eq (prev c) (data c') (diff_order env))"
    unfolding d unfolding c' using fr by (simp add: copy_pass_result deleted_pass_result)
  show "updates_deleted c' =
           updates_deleted c @
           values_of (data c) (expired_keys (clock env) (data c) (expire_order env)) @
           values_of (prev c)
             (deleted_keys (prev c) (data c')
                (set (expired_keys (clock env) (data c) (expire_order env))) (prev_order env))"
    unfolding d unfolding c' using fr res by (simp add: copy_pass_result deleted_pass_result)
  show "w' = expiry_calls (expiryMiddlewares c) (data c)
                (expired_keys (clock env) (data c) (expire_order env)) w"
    using w' res by simp
  show "prev c' = data c' |` set (copy_order env)"
    unfolding d unfolding c' by (simp add: copy_pass_result deleted_pass_result)
qed

end
